theory Spec2Isabelle
  imports Main "HOL-Library.Sublist"
begin

section \<open>ghttpd: a shallow embedding of the connection-handling pipeline\<close>

text \<open>
  The development follows \<^verbatim>\<open>ghttpd.go\<close>.  Go strings are byte sequences, so they are
  modelled as \<^typ>\<open>string\<close> (lists of 8-bit characters) and \<^verbatim>\<open>len\<close> is \<^const>\<open>length\<close>.
  Functions of the Go standard library that the program calls (\<^verbatim>\<open>strings.Split\<close>,
  \<^verbatim>\<open>strings.HasPrefix\<close>, \<^verbatim>\<open>strings.TrimPrefix\<close>, \<^verbatim>\<open>bufio.Reader.ReadString\<close>,
  \<^verbatim>\<open>url.PathUnescape\<close>, \<^verbatim>\<open>filepath.Clean\<close>, \<^verbatim>\<open>filepath.Join\<close>, \<^verbatim>\<open>filepath.Ext\<close>,
  \<^verbatim>\<open>fmt.Sprintf\<close> with \<^verbatim>\<open>%d\<close> and \<^verbatim>\<open>%s\<close>) are transcribed from their Unix
  implementations.  Logging is not modelled.
\<close>

subsection \<open>Bytes\<close>

abbreviation LF :: char where "LF \<equiv> CHR 0x0A"
abbreviation CR :: char where "CR \<equiv> CHR 0x0D"
abbreviation SP :: char where "SP \<equiv> CHR '' ''"
abbreviation Separator :: char where "Separator \<equiv> CHR ''/''"

abbreviation CRLF :: string where "CRLF \<equiv> [CR, LF]"

subsection \<open>Package strings\<close>

text \<open>
  \<^verbatim>\<open>strings.Split(s, sep)\<close> for a one-byte separator: cut at every occurrence of the
  separator; the result has one more element than there are separators, and elements may
  be empty.
\<close>

function Split :: "string \<Rightarrow> char \<Rightarrow> string list" where
  "Split s sep =
     (if sep \<in> set s
      then takeWhile (\<lambda>c. c \<noteq> sep) s # Split (tl (dropWhile (\<lambda>c. c \<noteq> sep) s)) sep
      else [s])"
  by pat_completeness auto
termination
proof (relation "measure (\<lambda>(s, sep). length s)")
  show "wf (measure (\<lambda>(s, sep). length s))" by simp
next
  fix s :: string and sep :: char
  assume "sep \<in> set s"
  then have "dropWhile (\<lambda>c. c \<noteq> sep) s \<noteq> []" by simp
  then have "length (tl (dropWhile (\<lambda>c. c \<noteq> sep) s)) < length (dropWhile (\<lambda>c. c \<noteq> sep) s)"
    by (cases "dropWhile (\<lambda>c. c \<noteq> sep) s") simp_all
  also have "\<dots> \<le> length s" by (rule length_dropWhile_le)
  finally show "((tl (dropWhile (\<lambda>c. c \<noteq> sep) s), sep), (s, sep)) \<in> measure (\<lambda>(s, sep). length s)"
    by simp
qed

declare Split.simps [simp del]

text \<open>\<^verbatim>\<open>strings.HasPrefix(s, prefix)\<close>: \<^verbatim>\<open>len(s) >= len(prefix) && s[:len(prefix)] == prefix\<close>.\<close>

definition HasPrefix :: "string \<Rightarrow> string \<Rightarrow> bool" where
  "HasPrefix s pre \<longleftrightarrow> length s \<ge> length pre \<and> take (length pre) s = pre"

text \<open>\<^verbatim>\<open>strings.TrimPrefix(s, prefix)\<close>: drop the prefix once if it is there.\<close>

definition TrimPrefix :: "string \<Rightarrow> string \<Rightarrow> string" where
  "TrimPrefix s pre = (if HasPrefix s pre then drop (length pre) s else s)"

subsection \<open>Package fmt: the verb \<^verbatim>\<open>%d\<close>\<close>

definition digit :: "nat \<Rightarrow> char" where
  "digit d = ''0123456789'' ! d"

function dec_nat :: "nat \<Rightarrow> string" where
  "dec_nat n = (if n < 10 then [digit n] else dec_nat (n div 10) @ [digit (n mod 10)])"
  by pat_completeness auto
termination
  by (relation "measure id") auto

declare dec_nat.simps [simp del]

definition fmt_d :: "int \<Rightarrow> string" where
  "fmt_d i = (if i < 0 then CHR ''-'' # dec_nat (nat (- i)) else dec_nat (nat i))"

subsection \<open>Package net/url: \<^verbatim>\<open>PathUnescape\<close>\<close>

definition ishex :: "char \<Rightarrow> bool" where
  "ishex c \<longleftrightarrow>
     (let n = (of_char c :: nat)
      in (48 \<le> n \<and> n \<le> 57) \<or> (97 \<le> n \<and> n \<le> 102) \<or> (65 \<le> n \<and> n \<le> 70))"

definition unhex :: "char \<Rightarrow> nat" where
  "unhex c =
     (let n = (of_char c :: nat)
      in if 48 \<le> n \<and> n \<le> 57 then n - 48
         else if 97 \<le> n \<and> n \<le> 102 then n - 97 + 10
         else if 65 \<le> n \<and> n \<le> 70 then n - 65 + 10
         else 0)"

text \<open>
  \<^verbatim>\<open>unescape(s, encodePathSegment)\<close> makes two passes.  The first checks that every
  \<^verbatim>\<open>%\<close> is followed by two hexadecimal digits; it returns the offending text (at most
  three bytes, the \<^verbatim>\<open>EscapeError\<close>) of the first one that is not.
\<close>

fun escape_error :: "string \<Rightarrow> string option" where
  "escape_error [] = None"
| "escape_error (c # cs) =
     (if c = CHR ''%''
      then (case cs of
              a # b # rest \<Rightarrow>
                if ishex a \<and> ishex b then escape_error rest else Some (take 3 (c # cs))
            | _ \<Rightarrow> Some (take 3 (c # cs)))
      else escape_error cs)"

text \<open>
  The second pass runs only on checked input and replaces each \<^verbatim>\<open>%XY\<close> by the byte
  \<^verbatim>\<open>unhex(X)<<4 | unhex(Y)\<close>.  In path-segment mode \<^verbatim>\<open>+\<close> stays \<^verbatim>\<open>+\<close>.  The branch
  for a truncated escape cannot be reached after the first pass.
\<close>

fun unescape_bytes :: "string \<Rightarrow> string" where
  "unescape_bytes [] = []"
| "unescape_bytes (c # cs) =
     (if c = CHR ''%''
      then (case cs of
              a # b # rest \<Rightarrow> char_of (unhex a * 16 + unhex b) # unescape_bytes rest
            | _ \<Rightarrow> [])
      else c # unescape_bytes cs)"

definition PathUnescape :: "string \<Rightarrow> string + string" where
  "PathUnescape s =
     (case escape_error s of
        Some e \<Rightarrow> Inl e
      | None \<Rightarrow> Inr (unescape_bytes s))"

subsection \<open>Package bufio: \<^verbatim>\<open>ReadString\<close>\<close>

text \<open>
  The connection's input is the byte sequence the peer delivers before it closes or the
  deadline expires.  \<^verbatim>\<open>ReadString('\n')\<close> returns the bytes up to and including the first
  line feed, or an error when there is none.
\<close>

definition ReadString :: "string \<Rightarrow> string option" where
  "ReadString inp =
     (if LF \<in> set inp then Some (takeWhile (\<lambda>c. c \<noteq> LF) inp @ [LF]) else None)"

subsection \<open>The request parser and validator\<close>

datatype parse_error =
    InvalidRequestFormat  \<comment> \<open>\<^verbatim>\<open>"invalid request format"\<close>\<close>
  | InvalidRequestLine    \<comment> \<open>\<^verbatim>\<open>"invalid Request line"\<close>\<close>
  | InvalidURLEncoding    \<comment> \<open>\<^verbatim>\<open>"invalid URL encoding"\<close>\<close>

definition parseRequest :: "string \<Rightarrow> parse_error + (string \<times> string \<times> string)" where
  "parseRequest inp =
     (case ReadString inp of
        None \<Rightarrow> Inl InvalidRequestFormat
      | Some firstLine \<Rightarrow>
          (let parts = Split firstLine SP
           in if length parts \<noteq> 3 then Inl InvalidRequestLine
              else (let method = parts ! 0; rawPath = parts ! 1; version = parts ! 2
                    in case PathUnescape rawPath of
                         Inl e \<Rightarrow> Inl InvalidURLEncoding
                       | Inr path \<Rightarrow> Inr (method, path, version))))"

text \<open>\<^verbatim>\<open>validateRequest\<close> returns \<^verbatim>\<open>nil\<close> (\<^const>\<open>None\<close>) or an error with a message.\<close>

definition validateRequest :: "string \<Rightarrow> string \<Rightarrow> string option" where
  "validateRequest method version =
     (if \<not> HasPrefix version ''HTTP'' then Some ''invalid HTTP version''
      else if method \<noteq> ''GET'' then Some ''method not allowed''
      else None)"

subsection \<open>Package path/filepath (Unix)\<close>

text \<open>
  \<^verbatim>\<open>Clean\<close> reads the path element by element and writes into a buffer.  \<open>out\<close> is
  the part of the buffer written so far (\<^verbatim>\<open>buf[:w]\<close>) and \<open>dotdot\<close> the index below which
  a \<^verbatim>\<open>..\<close> element must not backtrack.  The backtracking loop
  \<^verbatim>\<open>out.w--; for out.w > dotdot && !IsPathSeparator(out.index(out.w)) { out.w-- }\<close>
  is \<open>backtrack\<close>, started at \<open>length out - 1\<close>.
\<close>

function backtrack :: "string \<Rightarrow> nat \<Rightarrow> nat \<Rightarrow> nat" where
  "backtrack buf dotdot w =
     (if w > dotdot \<and> buf ! w \<noteq> Separator then backtrack buf dotdot (w - 1) else w)"
  by pat_completeness auto
termination
  by (relation "measure (\<lambda>(buf, dotdot, w). w)") auto

declare backtrack.simps [simp del]

function clean_loop :: "bool \<Rightarrow> string \<Rightarrow> nat \<Rightarrow> string \<Rightarrow> string" where
  "clean_loop rooted out dotdot [] = out"
| "clean_loop rooted out dotdot (c # cs) =
     (if c = Separator then clean_loop rooted out dotdot cs
      else if c = CHR ''.'' \<and> (cs = [] \<or> hd cs = Separator)
        then clean_loop rooted out dotdot cs
      else if c = CHR ''.'' \<and> hd cs = CHR ''.'' \<and> (tl cs = [] \<or> hd (tl cs) = Separator)
        then (if length out > dotdot
                then clean_loop rooted (take (backtrack out dotdot (length out - 1)) out)
                       dotdot (tl cs)
              else if \<not> rooted
                then (let out' = (if length out > 0 then out @ [Separator] else out) @ ''..''
                      in clean_loop rooted out' (length out') (tl cs))
              else clean_loop rooted out dotdot (tl cs))
      else (let out' = (if rooted \<and> length out \<noteq> 1 \<or> \<not> rooted \<and> length out \<noteq> 0
                        then out @ [Separator] else out)
            in clean_loop rooted (out' @ takeWhile (\<lambda>x. x \<noteq> Separator) (c # cs)) dotdot
                 (dropWhile (\<lambda>x. x \<noteq> Separator) (c # cs))))"
  by pat_completeness auto
termination
proof (relation "measure (\<lambda>(rooted, out, dotdot, p). length p)", goal_cases)
  case 1
  show ?case by simp
next
  case (2 rooted out dotdot c cs)
  then show ?case by simp
next
  case (3 rooted out dotdot c cs)
  then show ?case by simp
next
  case (4 rooted out dotdot c cs)
  then show ?case by (cases cs) auto
next
  case (5 rooted out dotdot c cs)
  then show ?case by (cases cs) auto
next
  case (6 rooted out dotdot c cs)
  then show ?case by (cases cs) auto
next
  case (7 rooted out dotdot c cs x)
  have "length (dropWhile (\<lambda>x. x \<noteq> Separator) cs) \<le> length cs"
    by (rule length_dropWhile_le)
  with 7 show ?case by simp
qed

declare clean_loop.simps [simp del]

definition Clean :: "string \<Rightarrow> string" where
  "Clean path =
     (if path = [] then ''.''
      else (let rooted = (hd path = Separator);
                out = (if rooted then clean_loop True [Separator] 1 (tl path)
                       else clean_loop False [] 0 path)
            in if out = [] then ''.'' else out))"

text \<open>
  \<^verbatim>\<open>Join(a, b)\<close>: the elements from the first non-empty one on are joined with the
  separator and cleaned; when both are empty the result is the empty string.
\<close>

definition Join :: "string \<Rightarrow> string \<Rightarrow> string" where
  "Join a b =
     (if a \<noteq> [] then Clean (a @ [Separator] @ b)
      else if b \<noteq> [] then Clean b
      else [])"

text \<open>
  \<^verbatim>\<open>Ext\<close> scans backwards from the end of the path to the last separator and returns
  the suffix that starts at the first dot it meets.  The index \<open>i\<close> here is Go's \<open>i + 1\<close>.
\<close>

fun Ext_from :: "string \<Rightarrow> nat \<Rightarrow> string" where
  "Ext_from path 0 = []"
| "Ext_from path (Suc i) =
     (if path ! i = Separator then []
      else if path ! i = CHR ''.'' then drop i path
      else Ext_from path i)"

definition Ext :: "string \<Rightarrow> string" where
  "Ext path = Ext_from path (length path)"

subsection \<open>The environment: served root, filesystem, MIME table\<close>

text \<open>
  \<^verbatim>\<open>os.Stat\<close> has the three outcomes the program distinguishes: an error for which
  \<^verbatim>\<open>os.IsNotExist\<close> holds, any other error, and a \<^verbatim>\<open>FileInfo\<close> of which only \<^verbatim>\<open>IsDir()\<close>
  is read.
\<close>

datatype stat_result = NotExist | StatError | FileInfo bool

text \<open>
  An opened file: what \<^verbatim>\<open>file.Stat()\<close> answers (\<^const>\<open>None\<close> for an error, otherwise
  \<^verbatim>\<open>info.Size()\<close>) and the bytes \<^verbatim>\<open>io.Copy\<close> reads from it.
\<close>

record os_file =
  file_Stat :: "nat option"
  file_bytes :: string

text \<open>
  The global \<^verbatim>\<open>dir\<close>, the filesystem calls (\<^const>\<open>None\<close> for an error) and
  \<^verbatim>\<open>mime.TypeByExtension\<close>, whose table is built at run time from the built-in types and
  the system's MIME files and which returns the empty string for an unknown extension.
\<close>

record env =
  dir :: string
  os_Stat :: "string \<Rightarrow> stat_result"
  os_Open :: "string \<Rightarrow> os_file option"
  os_ReadDir :: "string \<Rightarrow> string list option"
  TypeByExtension :: "string \<Rightarrow> string"

subsection \<open>Effects\<close>

text \<open>
  A handler run is the sequence of its calls on the filesystem and on the connection.
  Writes to the connection are taken to succeed; \<^verbatim>\<open>io.Copy\<close> is one write of the file's
  bytes.
\<close>

datatype event =
    FsStat string
  | FsOpen string
  | FsReadDir string
  | FileStat string
  | FileClose string
  | ConnWrite string
  | ConnClose

fun written :: "event list \<Rightarrow> string" where
  "written [] = []"
| "written (ConnWrite s # es) = s @ written es"
| "written (e # es) = written es"

fun is_fs_event :: "event \<Rightarrow> bool" where
  "is_fs_event (ConnWrite s) = False"
| "is_fs_event ConnClose = False"
| "is_fs_event e = True"

subsection \<open>The response serializer\<close>

abbreviation DQ :: char where "DQ \<equiv> CHR 0x22"

definition sendError :: "int \<Rightarrow> string \<Rightarrow> event list" where
  "sendError code message =
     [ConnWrite (''HTTP/1.1 '' @ fmt_d code @ '' '' @ message @ CRLF
                 @ ''Content-Type: text/plain'' @ CRLF
                 @ ''Content-Length: '' @ fmt_d (int (length message)) @ CRLF @ CRLF
                 @ message)]"

definition file_header :: "string \<Rightarrow> nat \<Rightarrow> string" where
  "file_header contentType sz =
     ''HTTP/1.1 200 OK'' @ CRLF
     @ ''Content-Type: '' @ contentType @ CRLF
     @ ''Content-Length: '' @ fmt_d (int sz) @ CRLF @ CRLF"

definition sendFile :: "env \<Rightarrow> string \<Rightarrow> event list" where
  "sendFile e path =
     FsOpen path #
     (case os_Open e path of
        None \<Rightarrow> sendError 500 ''Internal Server Error''
      | Some f \<Rightarrow>
          (let ext = Ext path;
               contentType = TypeByExtension e ext;
               contentType = (if contentType = [] then ''application/octet-stream''
                              else contentType)
           in FileStat path #
              (case file_Stat f of
                 None \<Rightarrow> sendError 500 ''Internal Server Error''
               | Some sz \<Rightarrow>
                   [ConnWrite (file_header contentType sz), ConnWrite (file_bytes f)])
              @ [FileClose path]))"

subsection \<open>The directory listing generator\<close>

definition listing_item :: "string \<Rightarrow> string \<Rightarrow> string" where
  "listing_item path name =
     (let relativePath = Join (TrimPrefix path ''.'') name
      in ''<li><a href='' @ [DQ] @ relativePath @ [DQ] @ ''>'' @ name @ ''</a></li>'')"

definition listing_document :: "string \<Rightarrow> string list \<Rightarrow> string" where
  "listing_document path files =
     foldl (\<lambda>builder name. builder @ listing_item path name)
       ''<html><head><title>Directory Listing</title></head><body><h1>Directory Listing</h1><ul>''
       files
     @ ''</ul></body></html>''"

definition generateDirectoryListing :: "env \<Rightarrow> string \<Rightarrow> string \<Rightarrow> event list" where
  "generateDirectoryListing e path fullPath =
     FsReadDir fullPath #
     (case os_ReadDir e fullPath of
        None \<Rightarrow> sendError 500 ''Internal Server Error''
      | Some files \<Rightarrow>
          (let document = listing_document path files
           in [ConnWrite (''HTTP/1.1 200 OK'' @ CRLF
                          @ ''Content-Type: text/html'' @ CRLF
                          @ ''Content-Length: '' @ fmt_d (int (length document)) @ CRLF @ CRLF
                          @ document)]))"

subsection \<open>The resource resolver and the connection handler\<close>

definition serveResource :: "env \<Rightarrow> string \<Rightarrow> event list" where
  "serveResource e path =
     (let fullPath = Join (dir e) path
      in FsStat fullPath #
         (case os_Stat e fullPath of
            NotExist \<Rightarrow> sendError 404 ''Not Found''
          | StatError \<Rightarrow> sendError 500 ''Internal Server Error''
          | FileInfo isDir \<Rightarrow>
              if isDir then generateDirectoryListing e path fullPath
              else sendFile e fullPath))"

text \<open>\<^verbatim>\<open>defer conn.Close()\<close> runs on every path out of the handler.\<close>

definition handleConnection :: "env \<Rightarrow> string \<Rightarrow> event list" where
  "handleConnection e inp =
     (case parseRequest inp of
        Inl err \<Rightarrow> sendError 400 ''Bad Request''
      | Inr (method, path, version) \<Rightarrow>
          (case validateRequest method version of
             Some err \<Rightarrow> sendError 400 err
           | None \<Rightarrow> serveResource e path))
     @ [ConnClose]"

subsection \<open>The worker pool and the acceptor\<close>











subsection \<open>Reference notions used to state properties\<close>

text \<open>
  Whitespace-separated tokens, as the specification words the request-line split: the
  maximal runs of bytes that are not ASCII whitespace (space, tab, line feed, vertical tab,
  form feed, carriage return).  The program does not call this function; it is here to
  compare the specification's wording with \<^const>\<open>Split\<close> on a space.
\<close>

definition is_whitespace :: "char \<Rightarrow> bool" where
  "is_whitespace c \<longleftrightarrow> c \<in> set [SP, CHR 0x09, LF, CHR 0x0B, CHR 0x0C, CR]"

fun whitespace_tokens_from :: "string \<Rightarrow> string \<Rightarrow> string list" where
  "whitespace_tokens_from cur [] = (if cur = [] then [] else [rev cur])"
| "whitespace_tokens_from cur (c # cs) =
     (if is_whitespace c
      then (if cur = [] then whitespace_tokens_from [] cs
            else rev cur # whitespace_tokens_from [] cs)
      else whitespace_tokens_from (c # cur) cs)"

definition whitespace_tokens :: "string \<Rightarrow> string list" where
  "whitespace_tokens s = whitespace_tokens_from [] s"

text \<open>
  Percent-encoding of every byte as \<^verbatim>\<open>%XY\<close> with upper-case hexadecimal digits, to state
  that decoding is exact.
\<close>

definition hex_digit :: "nat \<Rightarrow> char" where
  "hex_digit d = ''0123456789ABCDEF'' ! d"

definition escape_byte :: "char \<Rightarrow> string" where
  "escape_byte c = [CHR ''%'', hex_digit (of_char c div 16), hex_digit (of_char c mod 16)]"

definition escape_all :: "string \<Rightarrow> string" where
  "escape_all s = concat (map escape_byte s)"

text \<open>
  Reading a decimal numeral back, to say what number a \<^verbatim>\<open>Content-Length\<close> value denotes.
\<close>

definition digit_value :: "char \<Rightarrow> nat" where
  "digit_value c = of_char c - 48"

definition nat_of_dec :: "string \<Rightarrow> nat" where
  "nat_of_dec s = foldl (\<lambda>a c. 10 * a + digit_value c) 0 s"

text \<open>
  Containment in the served root, as the hardening note of the specification means it:
  the path is the root itself or lies below it.
\<close>

definition inside_root :: "string \<Rightarrow> string \<Rightarrow> bool" where
  "inside_root root p \<longleftrightarrow> p = root \<or> prefix (root @ [Separator]) p"

text \<open>
  Reading a response back off the wire: the lines up to the first empty line, each ended by
  CR LF, and the body after it.  The first line is the status line, the others are header
  lines \<^verbatim>\<open>name: value\<close>.
\<close>

fun header_block :: "string \<Rightarrow> string \<Rightarrow> (string list \<times> string) option" where
  "header_block cur (c # d # cs) =
     (if c = CR \<and> d = LF
      then (if cur = [] then Some ([], cs)
            else map_option (\<lambda>(ls, body). (rev cur # ls, body)) (header_block [] cs))
      else header_block (c # cur) (d # cs))"
| "header_block cur cs = None"

definition header_name :: "string \<Rightarrow> string" where
  "header_name line = takeWhile (\<lambda>c. c \<noteq> CHR '':'') line"

definition response_header_names :: "string \<Rightarrow> string list option" where
  "response_header_names w =
     (case header_block [] w of
        Some (status # headers, body) \<Rightarrow> Some (map header_name headers)
      | _ \<Rightarrow> None)"

subsection \<open>An example environment\<close>

text \<open>
  A small environment on which the handler is evaluated.  The served root \<^verbatim>\<open>/srv/www\<close>
  holds \<^verbatim>\<open>index.html\<close> (11 bytes), a file \<^verbatim>\<open>data\<close> without extension, a directory
  \<^verbatim>\<open>docs\<close> with two entries, a file \<^verbatim>\<open>secret.txt\<close> that exists and cannot be opened,
  a directory \<^verbatim>\<open>locked\<close> that exists and cannot be read, a directory \<^verbatim>\<open>.hidden\<close>, and
  an entry \<^verbatim>\<open>broken\<close> whose metadata query fails.  \<^verbatim>\<open>/etc/passwd\<close> lies outside the root.
\<close>

definition demo_env :: env where
  "demo_env =
     \<lparr>dir = ''/srv/www'',
      os_Stat = (\<lambda>p. case map_of
          [(''/srv/www'', FileInfo True),
           (''/srv/www/index.html'', FileInfo False),
           (''/srv/www/docs'', FileInfo True),
           (''/srv/www/data'', FileInfo False),
           (''/srv/www/secret.txt'', FileInfo False),
           (''/srv/www/locked'', FileInfo True),
           (''/srv/www/.hidden'', FileInfo True),
           (''/srv/www/broken'', StatError),
           (''/etc/passwd'', FileInfo False)] p
        of Some r \<Rightarrow> r | None \<Rightarrow> NotExist),
      os_Open = map_of
          [(''/srv/www/index.html'', \<lparr>file_Stat = Some 11, file_bytes = ''hello world''\<rparr>),
           (''/srv/www/data'', \<lparr>file_Stat = Some 3, file_bytes = ''abc''\<rparr>),
           (''/etc/passwd'', \<lparr>file_Stat = Some 10, file_bytes = ''root:x:0:0''\<rparr>)],
      os_ReadDir = map_of
          [(''/srv/www'', [''.hidden'', ''data'', ''docs'', ''index.html'', ''locked'', ''secret.txt'']),
           (''/srv/www/docs'', [''a.txt'', ''b'']),
           (''/srv/www/.hidden'', [''a''])],
      TypeByExtension = (\<lambda>ext. case map_of
          [(''.html'', ''text/html; charset=utf-8''),
           (''.txt'', ''text/plain; charset=utf-8'')] ext
        of Some t \<Rightarrow> t | None \<Rightarrow> [])\<rparr>"

section \<open>Properties\<close>

subsection \<open>Facts about the library functions\<close>

lemma Split_no_sep: "sep \<notin> set s \<Longrightarrow> Split s sep = [s]"
  by (simp add: Split.simps)

lemma takeWhile_until: "c \<notin> set a \<Longrightarrow> takeWhile (\<lambda>x. x \<noteq> c) (a @ c # r) = a"
  by (induction a) auto

lemma dropWhile_until: "c \<notin> set a \<Longrightarrow> dropWhile (\<lambda>x. x \<noteq> c) (a @ c # r) = c # r"
  by (induction a) auto

lemma Split_at_sep: "sep \<notin> set a \<Longrightarrow> Split (a @ sep # rest) sep = a # Split rest sep"
proof -
  assume a: "sep \<notin> set a"
  then have tw: "takeWhile (\<lambda>c. c \<noteq> sep) (a @ sep # rest) = a"
    by (rule takeWhile_until)
  from a have dw: "dropWhile (\<lambda>c. c \<noteq> sep) (a @ sep # rest) = sep # rest"
    by (rule dropWhile_until)
  show ?thesis
    by (subst Split.simps) (simp add: tw dw)
qed

lemma Split_length: "length (Split s sep) = Suc (count_list s sep)"
proof (induction s sep rule: Split.induct)
  case (1 s sep)
  show ?case
  proof (cases "sep \<in> set s")
    case True
    let ?a = "takeWhile (\<lambda>c. c \<noteq> sep) s"
    let ?d = "dropWhile (\<lambda>c. c \<noteq> sep) s"
    from True have "?d \<noteq> []" by simp
    moreover have "hd ?d = sep" using True hd_dropWhile[of "\<lambda>c. c \<noteq> sep" s] by auto
    ultimately have d: "?d = sep # tl ?d" by (cases ?d) auto
    have s: "s = ?a @ sep # tl ?d" using d takeWhile_dropWhile_id[of "\<lambda>c. c \<noteq> sep" s] by simp
    have "sep \<notin> set ?a" by (auto dest: set_takeWhileD)
    then have "count_list ?a sep = 0" by (simp add: count_list_0_iff)
    then have "count_list s sep = Suc (count_list (tl ?d) sep)"
      by (subst s) simp
    with 1[OF True] True show ?thesis
      by (subst Split.simps) simp
  next
    case False
    then show ?thesis by (simp add: Split.simps count_list_0_iff)
  qed
qed

lemma ReadString_line: "LF \<notin> set l \<Longrightarrow> ReadString (l @ LF # rest) = Some (l @ [LF])"
  by (simp add: ReadString_def takeWhile_until)

lemma HasPrefix_prefix: "HasPrefix s pre \<longleftrightarrow> prefix pre s"
  by (auto simp: HasPrefix_def prefix_def) (metis append_take_drop_id)

lemma TrimPrefix_absent: "\<not> prefix pre s \<Longrightarrow> TrimPrefix s pre = s"
  by (simp add: TrimPrefix_def HasPrefix_prefix)

text \<open>
  The decimal rendering consists of digits, is never empty and reads back as the number.
\<close>

lemma digit_in: "m < 10 \<Longrightarrow> digit m \<in> set ''0123456789''"
  unfolding digit_def by (rule nth_mem) simp

lemma dec_nat_digits: "set (dec_nat n) \<subseteq> set ''0123456789''"
proof (induction n rule: dec_nat.induct)
  case (1 n)
  show ?case
  proof (cases "n < 10")
    case True
    then show ?thesis using digit_in [of n] by (subst dec_nat.simps) simp
  next
    case False
    with 1 have "set (dec_nat (n div 10)) \<subseteq> set ''0123456789''" by simp
    moreover have "digit (n mod 10) \<in> set ''0123456789''" by (rule digit_in) simp
    ultimately show ?thesis using False by (subst dec_nat.simps) simp
  qed
qed

lemma fmt_d_no_CR: "CR \<notin> set (fmt_d i)"
  using dec_nat_digits [of "nat i"] dec_nat_digits [of "nat (- i)"]
  by (auto simp: fmt_d_def)

lemma digit_value_digit: "m < 10 \<Longrightarrow> digit_value (digit m) = m"
proof -
  assume "m < 10"
  then have "m \<in> set [0, 1, 2, 3, 4, 5, 6, 7, 8, 9]" by auto
  then show ?thesis
    by (auto simp: digit_def digit_value_def)
qed

lemma nat_of_dec_dec_nat: "nat_of_dec (dec_nat n) = n"
proof (induction n rule: dec_nat.induct)
  case (1 n)
  show ?case
  proof (cases "n < 10")
    case True
    then show ?thesis
      by (subst dec_nat.simps) (simp add: nat_of_dec_def digit_value_digit)
  next
    case False
    with 1 have "nat_of_dec (dec_nat (n div 10)) = n div 10" by simp
    with False show ?thesis
      by (subst dec_nat.simps) (simp add: nat_of_dec_def digit_value_digit)
  qed
qed

lemma nat_of_dec_fmt_d: "nat_of_dec (fmt_d (int n)) = n"
  by (simp add: fmt_d_def nat_of_dec_dec_nat)

lemma fmt_d_400: "fmt_d 400 = ''400''"
  by code_simp

text \<open>
  Percent-decoding is exact: text without \<^verbatim>\<open>%\<close> is left as it is, decoding distributes
  over concatenation of well-formed pieces, and every byte string is recovered from its
  encoding.
\<close>

lemma unhex_hex_digit: "d < 16 \<Longrightarrow> ishex (hex_digit d) \<and> unhex (hex_digit d) = d"
proof -
  assume "d < 16"
  then have "d \<in> set [0, 1, 2, 3, 4, 5, 6, 7, 8, 9, 10, 11, 12, 13, 14, 15]" by simp arith
  then show ?thesis
    by (auto simp: hex_digit_def ishex_def unhex_def)
qed

lemma of_char_less_256: "(of_char c :: nat) < 256"
  by (cases c) (simp add: of_char_def horner_sum_eq_sum)

lemma unescape_plain:
  "CHR ''%'' \<notin> set s \<Longrightarrow> escape_error s = None \<and> unescape_bytes s = s"
  by (induction s) auto

lemma unescape_append:
  "escape_error a = None \<Longrightarrow>
   escape_error (a @ b) = escape_error b \<and> unescape_bytes (a @ b) = unescape_bytes a @ unescape_bytes b"
proof (induction a rule: escape_error.induct)
  case 1
  show ?case by simp
next
  case (2 c cs)
  show ?case
  proof (cases "c = CHR ''%''")
    case False
    with 2 show ?thesis by simp
  next
    case True
    with "2.prems" obtain x y rest where cs: "cs = x # y # rest" and h: "ishex x \<and> ishex y"
      and r: "escape_error rest = None"
      by (auto split: list.splits if_splits)
    from "2.IH"(1) [OF True cs] h r
    have "escape_error (rest @ b) = escape_error b \<and>
          unescape_bytes (rest @ b) = unescape_bytes rest @ unescape_bytes b" by simp
    with True cs h show ?thesis by simp
  qed
qed

lemma unescape_escape_byte:
  "escape_error (escape_byte c) = None \<and> unescape_bytes (escape_byte c) = [c]"
proof -
  let ?n = "of_char c :: nat"
  have hi: "?n div 16 < 16" using of_char_less_256 [of c] by arith
  have lo: "?n mod 16 < 16" by simp
  have "char_of (?n div 16 * 16 + ?n mod 16) = c" by simp
  with unhex_hex_digit [OF hi] unhex_hex_digit [OF lo] show ?thesis
    by (simp add: escape_byte_def)
qed

lemma PathUnescape_escape_all: "PathUnescape (escape_all s) = Inr s"
proof -
  have "escape_error (escape_all s) = None \<and> unescape_bytes (escape_all s) = s"
  proof (induction s)
    case Nil
    show ?case by (simp add: escape_all_def)
  next
    case (Cons c s)
    have "escape_all (c # s) = escape_byte c @ escape_all s" by (simp add: escape_all_def)
    with unescape_append [of "escape_byte c" "escape_all s"] unescape_escape_byte [of c] Cons
    show ?case by simp
  qed
  then show ?thesis by (simp add: PathUnescape_def)
qed

text \<open>
  Unfolding rules that evaluate the parser on a concrete request.
\<close>

lemmas eval_parse =
  parseRequest_def ReadString_def Split.simps PathUnescape_def unhex_def ishex_def
  char_of_def bit_Suc_0_iff Let_def

subsection \<open>Facts about the serializer and the handler\<close>

lemma written_append: "written (xs @ ys) = written xs @ written ys"
  by (induction xs rule: written.induct) simp_all



lemma validateRequest_None_iff:
  "validateRequest method version = None \<longleftrightarrow> method = ''GET'' \<and> prefix ''HTTP'' version"
  by (simp add: validateRequest_def HasPrefix_prefix)

lemma validateRequest_message:
  "validateRequest method version = Some err \<Longrightarrow> CR \<notin> set err"
  by (auto simp: validateRequest_def split: if_splits)

lemma handleConnection_invalid:
  assumes "parseRequest inp = Inr (method, path, version)"
    and "validateRequest method version = Some err"
  shows "handleConnection e inp =
           [ConnWrite (''HTTP/1.1 400 '' @ err @ CRLF
                       @ ''Content-Type: text/plain'' @ CRLF
                       @ ''Content-Length: '' @ fmt_d (int (length err)) @ CRLF @ CRLF
                       @ err),
            ConnClose]"
  using assms by (simp add: handleConnection_def sendError_def fmt_d_400)

lemma handleConnection_valid:
  assumes "parseRequest inp = Inr (method, path, version)"
    and "validateRequest method version = None"
  shows "handleConnection e inp = serveResource e path @ [ConnClose]"
  using assms by (simp add: handleConnection_def)

lemma foldl_append_concat: "foldl (\<lambda>b x. b @ g x) a xs = a @ concat (map g xs)"
  by (induction xs arbitrary: a) simp_all

lemma listing_document_items:
  "listing_document path files =
     ''<html><head><title>Directory Listing</title></head><body><h1>Directory Listing</h1><ul>''
     @ concat (map (listing_item path) files)
     @ ''</ul></body></html>''"
  by (simp add: listing_document_def foldl_append_concat)

subsection \<open>The request line\<close>

text \<open>
  Claim C1, as amended.  For every request line read from a connection, \<^const>\<open>parseRequest\<close>
  cuts the line at every space byte and fails with the request-line error
  (\<^verbatim>\<open>"invalid Request line"\<close>) if and only if that gives a number of fields other than
  three; the number of fields is one more than the number of space bytes in the line.
\<close>

theorem parseRequest_token_count:
  assumes "ReadString inp = Some line"
  shows "(parseRequest inp = Inl InvalidRequestLine \<longleftrightarrow> length (Split line SP) \<noteq> 3) \<and>
         length (Split line SP) = Suc (count_list line SP)"
  using assms
  by (auto simp: parseRequest_def Let_def Split_length split: sum.splits)

text \<open>
  At the two-field line \<^verbatim>\<open>GET /index.html\<close> the parser fails with the request-line error.
\<close>

theorem parseRequest_token_count_witness:
  "ReadString (''GET /index.html'' @ CRLF) = Some (''GET /index.html'' @ CRLF) \<and>
   parseRequest (''GET /index.html'' @ CRLF) = Inl InvalidRequestLine \<and>
   length (Split (''GET /index.html'' @ CRLF) SP) = 2"
proof -
  have h: "ReadString (''GET /index.html'' @ CRLF) = Some (''GET /index.html'' @ CRLF)"
    by (simp add: ReadString_def)
  from parseRequest_token_count [OF h] show ?thesis
    using h by simp
qed

text \<open>
  With whitespace-separated tokens in place of fields cut at single spaces the statement
  fails in both directions.  A line with a doubled space has three whitespace-separated
  tokens and is rejected; a line whose path holds a tab has four and is accepted.
\<close>

theorem parseRequest_whitespace_counterexample:
  "ReadString (''GET  / HTTP/1.1'' @ CRLF) = Some (''GET  / HTTP/1.1'' @ CRLF) \<and>
   whitespace_tokens (''GET  / HTTP/1.1'' @ CRLF) = [''GET'', ''/'', ''HTTP/1.1''] \<and>
   parseRequest (''GET  / HTTP/1.1'' @ CRLF) = Inl InvalidRequestLine \<and>
   ReadString (''GET /a'' @ [CHR 0x09] @ ''b HTTP/1.1'' @ CRLF)
     = Some (''GET /a'' @ [CHR 0x09] @ ''b HTTP/1.1'' @ CRLF) \<and>
   length (whitespace_tokens (''GET /a'' @ [CHR 0x09] @ ''b HTTP/1.1'' @ CRLF)) = 4 \<and>
   parseRequest (''GET /a'' @ [CHR 0x09] @ ''b HTTP/1.1'' @ CRLF)
     = Inr (''GET'', ''/a'' @ [CHR 0x09] @ ''b'', ''HTTP/1.1'' @ CRLF)"
  by code_simp

text \<open>
  Claim C2.  For every request \<^verbatim>\<open>GET <path> HTTP/1.x\<close> ended by LF or CR LF, whose raw
  path holds no space and no line feed and only well-formed escapes, \<^const>\<open>parseRequest\<close>
  succeeds with the method \<^verbatim>\<open>GET\<close>, the percent-decoded path, and the version token as
  received, line terminator included.  Bytes after the first line are not read.
\<close>

theorem parseRequest_valid_GET:
  assumes "SP \<notin> set rawPath" and "LF \<notin> set rawPath"
    and "escape_error rawPath = None"
    and "SP \<notin> set x" and "LF \<notin> set x"
    and "eol = [LF] \<or> eol = CRLF"
  shows "parseRequest (''GET '' @ rawPath @ '' HTTP/1.'' @ x @ eol @ rest)
           = Inr (''GET'', unescape_bytes rawPath, ''HTTP/1.'' @ x @ eol)"
proof -
  let ?v = "''HTTP/1.'' @ x @ eol"
  let ?body = "''GET '' @ rawPath @ '' HTTP/1.'' @ x @ (if eol = [LF] then [] else [CR])"
  have eol: "eol = (if eol = [LF] then [] else [CR]) @ [LF]"
    using assms(6) by auto
  have nolf: "LF \<notin> set ?body" using assms by auto
  have inp: "''GET '' @ rawPath @ '' HTTP/1.'' @ x @ eol @ rest = ?body @ LF # rest"
    by (subst eol) simp
  have line: "?body @ [LF] = ''GET'' @ SP # rawPath @ SP # ?v"
    by (subst (2) eol) simp
  have rd: "ReadString (''GET '' @ rawPath @ '' HTTP/1.'' @ x @ eol @ rest)
              = Some (''GET'' @ SP # rawPath @ SP # ?v)"
    unfolding inp using ReadString_line [OF nolf] line by simp
  have "SP \<notin> set ?v" using assms by auto
  then have "Split ?v SP = [?v]" by (rule Split_no_sep)
  then have "Split (rawPath @ SP # ?v) SP = [rawPath, ?v]"
    using Split_at_sep [OF assms(1)] by simp
  moreover have "SP \<notin> set ''GET''" by simp
  ultimately have parts: "Split (''GET'' @ SP # rawPath @ SP # ?v) SP = [''GET'', rawPath, ?v]"
    using Split_at_sep [of SP "''GET''"] by simp
  show ?thesis
    by (simp only: parseRequest_def rd option.case parts Let_def)
       (simp add: PathUnescape_def assms(3))
qed

text \<open>
  The request \<^verbatim>\<open>GET /test%20file.html HTTP/1.1\<close> of the test suite.
\<close>

theorem parseRequest_valid_GET_witness:
  "SP \<notin> set ''/test%20file.html'' \<and> LF \<notin> set ''/test%20file.html'' \<and>
   escape_error ''/test%20file.html'' = None \<and>
   SP \<notin> set ''1'' \<and> LF \<notin> set ''1'' \<and>
   parseRequest (''GET /test%20file.html HTTP/1.1'' @ CRLF)
     = Inr (''GET'', ''/test file.html'', ''HTTP/1.1'' @ CRLF)"
proof -
  have a: "SP \<notin> set ''/test%20file.html''" and b: "LF \<notin> set ''/test%20file.html''"
    and d: "SP \<notin> set ''1''" and e: "LF \<notin> set ''1''" by simp_all
  have c: "escape_error ''/test%20file.html'' = None" by (simp add: ishex_def)
  have f: "CRLF = [LF] \<or> CRLF = CRLF" by simp
  have u: "unescape_bytes ''/test%20file.html'' = ''/test file.html''"
    by (simp add: unhex_def char_of_def bit_Suc_0_iff)
  from parseRequest_valid_GET [OF a b c d e f, of "[]"] show ?thesis
    using a b c d e u by simp
qed

subsection \<open>Validation\<close>

text \<open>
  Claim C3.  Validation succeeds if and only if the method is \<^verbatim>\<open>GET\<close> and the version
  begins with \<^verbatim>\<open>HTTP\<close>.  When a parsed request fails validation, the handler writes one
  response with status 400 and a plain-text reason, closes the connection, and makes no
  call on the filesystem.
\<close>

theorem validateRequest_400:
  "(validateRequest method version = None \<longleftrightarrow> method = ''GET'' \<and> prefix ''HTTP'' version) \<and>
   (parseRequest inp = Inr (method, path, version) \<longrightarrow>
    validateRequest method version \<noteq> None \<longrightarrow>
      (\<exists>reason.
         handleConnection e inp =
           [ConnWrite (''HTTP/1.1 400 '' @ reason @ CRLF
                       @ ''Content-Type: text/plain'' @ CRLF
                       @ ''Content-Length: '' @ fmt_d (int (length reason)) @ CRLF @ CRLF
                       @ reason),
            ConnClose]) \<and>
      filter is_fs_event (handleConnection e inp) = [])"
proof (intro conjI impI)
  show "validateRequest method version = None \<longleftrightarrow> method = ''GET'' \<and> prefix ''HTTP'' version"
    by (rule validateRequest_None_iff)
next
  assume p: "parseRequest inp = Inr (method, path, version)"
    and v: "validateRequest method version \<noteq> None"
  from v obtain err where err: "validateRequest method version = Some err" by auto
  from handleConnection_invalid [OF p err, of e]
  show "\<exists>reason.
         handleConnection e inp =
           [ConnWrite (''HTTP/1.1 400 '' @ reason @ CRLF
                       @ ''Content-Type: text/plain'' @ CRLF
                       @ ''Content-Length: '' @ fmt_d (int (length reason)) @ CRLF @ CRLF
                       @ reason),
            ConnClose]" by blast
  from handleConnection_invalid [OF p err, of e]
  show "filter is_fs_event (handleConnection e inp) = []" by simp
qed

text \<open>
  The request \<^verbatim>\<open>POST / HTTP/1.1\<close>.
\<close>

theorem validateRequest_400_witness:
  "parseRequest (''POST / HTTP/1.1'' @ CRLF) = Inr (''POST'', ''/'', ''HTTP/1.1'' @ CRLF) \<and>
   validateRequest ''POST'' (''HTTP/1.1'' @ CRLF) \<noteq> None \<and>
   written (handleConnection demo_env (''POST / HTTP/1.1'' @ CRLF)) =
     ''HTTP/1.1 400 method not allowed'' @ CRLF @ ''Content-Type: text/plain'' @ CRLF
     @ ''Content-Length: 18'' @ CRLF @ CRLF @ ''method not allowed'' \<and>
   filter is_fs_event (handleConnection demo_env (''POST / HTTP/1.1'' @ CRLF)) = []"
proof -
  have p: "parseRequest (''POST / HTTP/1.1'' @ CRLF) = Inr (''POST'', ''/'', ''HTTP/1.1'' @ CRLF)"
    by code_simp
  have v: "validateRequest ''POST'' (''HTTP/1.1'' @ CRLF) \<noteq> None"
    by (simp add: validateRequest_def HasPrefix_def)
  have w: "written (handleConnection demo_env (''POST / HTTP/1.1'' @ CRLF)) =
     ''HTTP/1.1 400 method not allowed'' @ CRLF @ ''Content-Type: text/plain'' @ CRLF
     @ ''Content-Length: 18'' @ CRLF @ CRLF @ ''method not allowed''"
    by code_simp
  from validateRequest_400 [of "''POST''" "''HTTP/1.1'' @ CRLF" "''POST / HTTP/1.1'' @ CRLF" "''/''" demo_env]
  show ?thesis using p v w by simp
qed

text \<open>
  Claim C10.  When the method is not \<^verbatim>\<open>GET\<close> and the version does not begin with
  \<^verbatim>\<open>HTTP\<close>, \<^const>\<open>validateRequest\<close> reports the version error, and the body of the 400
  response is the version message.
\<close>

theorem validateRequest_version_first:
  assumes "method \<noteq> ''GET''" and "\<not> prefix ''HTTP'' version"
  shows "validateRequest method version = Some ''invalid HTTP version'' \<and>
         (parseRequest inp = Inr (method, path, version) \<longrightarrow>
            written (handleConnection e inp) =
              ''HTTP/1.1 400 invalid HTTP version'' @ CRLF
              @ ''Content-Type: text/plain'' @ CRLF
              @ ''Content-Length: 20'' @ CRLF @ CRLF
              @ ''invalid HTTP version'')"
proof -
  have v: "validateRequest method version = Some ''invalid HTTP version''"
    using assms(2) by (simp add: validateRequest_def HasPrefix_prefix)
  have "fmt_d (int (length ''invalid HTTP version'')) = ''20''" by code_simp
  with v handleConnection_invalid [OF _ v, of inp path e] show ?thesis
    by auto
qed

text \<open>
  The request \<^verbatim>\<open>POST / FTP/1.1\<close>.
\<close>

theorem validateRequest_version_first_witness:
  "''POST'' \<noteq> ''GET'' \<and> \<not> prefix ''HTTP'' (''FTP/1.1'' @ CRLF) \<and>
   parseRequest (''POST / FTP/1.1'' @ CRLF) = Inr (''POST'', ''/'', ''FTP/1.1'' @ CRLF) \<and>
   validateRequest ''POST'' (''FTP/1.1'' @ CRLF) = Some ''invalid HTTP version'' \<and>
   written (handleConnection demo_env (''POST / FTP/1.1'' @ CRLF)) =
     ''HTTP/1.1 400 invalid HTTP version'' @ CRLF
     @ ''Content-Type: text/plain'' @ CRLF
     @ ''Content-Length: 20'' @ CRLF @ CRLF
     @ ''invalid HTTP version''"
proof -
  have a: "''POST'' \<noteq> ''GET''" by simp
  have b: "\<not> prefix ''HTTP'' (''FTP/1.1'' @ CRLF)" by simp
  have p: "parseRequest (''POST / FTP/1.1'' @ CRLF) = Inr (''POST'', ''/'', ''FTP/1.1'' @ CRLF)"
    by code_simp
  from validateRequest_version_first [OF a b, of "''POST / FTP/1.1'' @ CRLF" "''/''" demo_env]
  show ?thesis using a b p by simp
qed

subsection \<open>Resource resolution\<close>



subsection \<open>The file response\<close>

text \<open>
  Claim C5, as amended.  For every existing regular file that can be opened and whose
  metadata query on the opened file succeeds with size \<open>N\<close>, the response has status 200,
  a \<^verbatim>\<open>Content-Type\<close> equal to \<^verbatim>\<open>mime.TypeByExtension\<close> of the path's extension, or
  \<^verbatim>\<open>application/octet-stream\<close> when that is empty, a \<^verbatim>\<open>Content-Length\<close> that is \<open>N\<close> in
  decimal, and the file's bytes as body.
\<close>

theorem sendFile_response:
  assumes "fullPath = Join (dir e) path"
    and "os_Stat e fullPath = FileInfo False"
    and "os_Open e fullPath = Some f"
    and "file_Stat f = Some N"
  shows "written (serveResource e path) =
           ''HTTP/1.1 200 OK'' @ CRLF
           @ ''Content-Type: ''
           @ (if TypeByExtension e (Ext fullPath) = [] then ''application/octet-stream''
              else TypeByExtension e (Ext fullPath)) @ CRLF
           @ ''Content-Length: '' @ fmt_d (int N) @ CRLF @ CRLF
           @ file_bytes f \<and>
         nat_of_dec (fmt_d (int N)) = N"
  using assms
  by (simp add: serveResource_def sendFile_def file_header_def Let_def nat_of_dec_fmt_d)

text \<open>
  \<^verbatim>\<open>index.html\<close>, whose extension is in the table, and \<^verbatim>\<open>data\<close>, which has none.
\<close>

theorem sendFile_response_witness:
  "''/srv/www/index.html'' = Join (dir demo_env) ''/index.html'' \<and>
   os_Stat demo_env ''/srv/www/index.html'' = FileInfo False \<and>
   os_Open demo_env ''/srv/www/index.html''
     = Some \<lparr>file_Stat = Some 11, file_bytes = ''hello world''\<rparr> \<and>
   written (serveResource demo_env ''/index.html'') =
     ''HTTP/1.1 200 OK'' @ CRLF @ ''Content-Type: text/html; charset=utf-8'' @ CRLF
     @ ''Content-Length: 11'' @ CRLF @ CRLF @ ''hello world'' \<and>
   ''/srv/www/data'' = Join (dir demo_env) ''/data'' \<and>
   os_Stat demo_env ''/srv/www/data'' = FileInfo False \<and>
   os_Open demo_env ''/srv/www/data'' = Some \<lparr>file_Stat = Some 3, file_bytes = ''abc''\<rparr> \<and>
   Ext ''/srv/www/data'' = [] \<and>
   written (serveResource demo_env ''/data'') =
     ''HTTP/1.1 200 OK'' @ CRLF @ ''Content-Type: application/octet-stream'' @ CRLF
     @ ''Content-Length: 3'' @ CRLF @ CRLF @ ''abc''"
proof -
  have j: "''/srv/www/index.html'' = Join (dir demo_env) ''/index.html''" by code_simp
  have s: "os_Stat demo_env ''/srv/www/index.html'' = FileInfo False" by code_simp
  have f: "os_Open demo_env ''/srv/www/index.html''
             = Some \<lparr>file_Stat = Some 11, file_bytes = ''hello world''\<rparr>" by code_simp
  have n: "file_Stat \<lparr>file_Stat = Some 11, file_bytes = ''hello world''\<rparr> = Some 11" by simp
  have t: "TypeByExtension demo_env (Ext ''/srv/www/index.html'') = ''text/html; charset=utf-8''"
    by code_simp
  have d: "fmt_d (int 11) = ''11''" by code_simp
  have j': "''/srv/www/data'' = Join (dir demo_env) ''/data''" by code_simp
  have s': "os_Stat demo_env ''/srv/www/data'' = FileInfo False" by code_simp
  have f': "os_Open demo_env ''/srv/www/data''
              = Some \<lparr>file_Stat = Some 3, file_bytes = ''abc''\<rparr>" by code_simp
  have n': "file_Stat \<lparr>file_Stat = Some 3, file_bytes = ''abc''\<rparr> = Some 3" by simp
  have x': "Ext ''/srv/www/data'' = []" by code_simp
  have t': "TypeByExtension demo_env [] = []" by code_simp
  have d': "fmt_d (int 3) = ''3''" by code_simp
  from sendFile_response [OF j s f n] sendFile_response [OF j' s' f' n'] show ?thesis
    using j s f t d j' s' f' x' t' d' by simp
qed

text \<open>
  Without the condition on opening the statement fails: \<^verbatim>\<open>secret.txt\<close> exists, is not a
  directory, cannot be opened, and is answered with 500.
\<close>

theorem sendFile_unreadable_counterexample:
  "os_Stat demo_env (Join (dir demo_env) ''/secret.txt'') = FileInfo False \<and>
   os_Open demo_env (Join (dir demo_env) ''/secret.txt'') = None \<and>
   written (handleConnection demo_env (''GET /secret.txt HTTP/1.1'' @ CRLF)) =
     ''HTTP/1.1 500 Internal Server Error'' @ CRLF @ ''Content-Type: text/plain'' @ CRLF
     @ ''Content-Length: 21'' @ CRLF @ CRLF @ ''Internal Server Error''"
  by code_simp

subsection \<open>The directory listing\<close>

text \<open>
  Claim C6, as amended.  For every existing directory whose entries can be read, the
  response has status 200 and \<^verbatim>\<open>Content-Type: text/html\<close>; the body is the fixed opening,
  one list item per entry in the order of enumeration, and the fixed closing; the link
  target of an item is \<^verbatim>\<open>filepath.Join\<close> of the request path without one leading dot
  and the entry's name, its visible text is the name; \<^verbatim>\<open>Content-Length\<close> is the byte length
  of the document.  For a request path that does not begin with a dot, the target is the
  request path joined with the name.
\<close>

theorem generateDirectoryListing_response:
  assumes "fullPath = Join (dir e) path"
    and "os_Stat e fullPath = FileInfo True"
    and "os_ReadDir e fullPath = Some files"
    and "document =
           ''<html><head><title>Directory Listing</title></head><body><h1>Directory Listing</h1><ul>''
           @ concat (map (\<lambda>name. ''<li><a href='' @ [DQ] @ Join (TrimPrefix path ''.'') name @ [DQ]
                                   @ ''>'' @ name @ ''</a></li>'') files)
           @ ''</ul></body></html>''"
  shows "written (serveResource e path) =
           ''HTTP/1.1 200 OK'' @ CRLF
           @ ''Content-Type: text/html'' @ CRLF
           @ ''Content-Length: '' @ fmt_d (int (length document)) @ CRLF @ CRLF
           @ document \<and>
         nat_of_dec (fmt_d (int (length document))) = length document \<and>
         (\<not> prefix ''.'' path \<longrightarrow> TrimPrefix path ''.'' = path)"
proof -
  have "listing_item path = (\<lambda>name. ''<li><a href='' @ [DQ] @ Join (TrimPrefix path ''.'') name @ [DQ]
                                   @ ''>'' @ name @ ''</a></li>'')"
    by (rule ext) (simp add: listing_item_def)
  then have doc: "listing_document path files = document"
    using assms(4) by (simp add: listing_document_items)
  show ?thesis
    using assms(1-3)
    by (simp add: serveResource_def generateDirectoryListing_def Let_def doc
        nat_of_dec_fmt_d TrimPrefix_absent del: append.simps)
qed

text \<open>
  The directory \<^verbatim>\<open>/docs\<close> of the example environment.
\<close>

theorem generateDirectoryListing_response_witness:
  "''/srv/www/docs'' = Join (dir demo_env) ''/docs'' \<and>
   os_Stat demo_env ''/srv/www/docs'' = FileInfo True \<and>
   os_ReadDir demo_env ''/srv/www/docs'' = Some [''a.txt'', ''b''] \<and>
   \<not> prefix ''.'' ''/docs'' \<and>
   written (serveResource demo_env ''/docs'') =
     ''HTTP/1.1 200 OK'' @ CRLF @ ''Content-Type: text/html'' @ CRLF
     @ ''Content-Length: 178'' @ CRLF @ CRLF
     @ ''<html><head><title>Directory Listing</title></head><body><h1>Directory Listing</h1><ul>''
     @ ''<li><a href='' @ [DQ] @ ''/docs/a.txt'' @ [DQ] @ ''>a.txt</a></li>''
     @ ''<li><a href='' @ [DQ] @ ''/docs/b'' @ [DQ] @ ''>b</a></li>''
     @ ''</ul></body></html>''"
proof -
  let ?doc = "''<html><head><title>Directory Listing</title></head><body><h1>Directory Listing</h1><ul>''
     @ ''<li><a href='' @ [DQ] @ ''/docs/a.txt'' @ [DQ] @ ''>a.txt</a></li>''
     @ ''<li><a href='' @ [DQ] @ ''/docs/b'' @ [DQ] @ ''>b</a></li>''
     @ ''</ul></body></html>''"
  have j: "''/srv/www/docs'' = Join (dir demo_env) ''/docs''" by code_simp
  have s: "os_Stat demo_env ''/srv/www/docs'' = FileInfo True" by code_simp
  have r: "os_ReadDir demo_env ''/srv/www/docs'' = Some [''a.txt'', ''b'']" by code_simp
  have n: "\<not> prefix ''.'' ''/docs''" by simp
  have d: "?doc =
           ''<html><head><title>Directory Listing</title></head><body><h1>Directory Listing</h1><ul>''
           @ concat (map (\<lambda>name. ''<li><a href='' @ [DQ] @ Join (TrimPrefix ''/docs'' ''.'') name @ [DQ]
                                   @ ''>'' @ name @ ''</a></li>'') [''a.txt'', ''b''])
           @ ''</ul></body></html>''"
    by code_simp
  have l: "fmt_d (int (length ?doc)) = ''178''" by code_simp
  from generateDirectoryListing_response [OF j s r d] have
    "written (serveResource demo_env ''/docs'') =
           ''HTTP/1.1 200 OK'' @ CRLF
           @ ''Content-Type: text/html'' @ CRLF
           @ ''Content-Length: '' @ fmt_d (int (length ?doc)) @ CRLF @ CRLF
           @ ?doc" by blast
  then show ?thesis
    unfolding l using j s r n by simp
qed

text \<open>
  The statement without the two changes fails.  The directory \<^verbatim>\<open>locked\<close> exists and
  cannot be read, and is answered with 500.  For the request path \<^verbatim>\<open>.hidden\<close> the link
  target is \<^verbatim>\<open>hidden/a\<close>, while the request path joined with the name is
  \<^verbatim>\<open>.hidden/a\<close>.
\<close>

theorem generateDirectoryListing_counterexample:
  "os_Stat demo_env (Join (dir demo_env) ''/locked'') = FileInfo True \<and>
   os_ReadDir demo_env (Join (dir demo_env) ''/locked'') = None \<and>
   written (handleConnection demo_env (''GET /locked HTTP/1.1'' @ CRLF)) =
     ''HTTP/1.1 500 Internal Server Error'' @ CRLF @ ''Content-Type: text/plain'' @ CRLF
     @ ''Content-Length: 21'' @ CRLF @ CRLF @ ''Internal Server Error'' \<and>
   parseRequest (''GET .hidden HTTP/1.1'' @ CRLF) = Inr (''GET'', ''.hidden'', ''HTTP/1.1'' @ CRLF) \<and>
   os_Stat demo_env (Join (dir demo_env) ''.hidden'') = FileInfo True \<and>
   os_ReadDir demo_env (Join (dir demo_env) ''.hidden'') = Some [''a''] \<and>
   Join ''.hidden'' ''a'' = ''.hidden/a'' \<and>
   written (handleConnection demo_env (''GET .hidden HTTP/1.1'' @ CRLF)) =
     ''HTTP/1.1 200 OK'' @ CRLF @ ''Content-Type: text/html'' @ CRLF
     @ ''Content-Length: 139'' @ CRLF @ CRLF
     @ ''<html><head><title>Directory Listing</title></head><body><h1>Directory Listing</h1><ul>''
     @ ''<li><a href='' @ [DQ] @ ''hidden/a'' @ [DQ] @ ''>a</a></li>''
     @ ''</ul></body></html>''"
  by code_simp

subsection \<open>The headers of every response\<close>

lemma header_block_line:
  "CR \<notin> set l \<Longrightarrow>
   header_block cur (l @ CR # LF # rest) =
     (if cur = [] \<and> l = [] then Some ([], rest)
      else map_option (\<lambda>(ls, body). ((rev cur @ l) # ls, body)) (header_block [] rest))"
proof (induction l arbitrary: cur)
  case Nil
  show ?case by simp
next
  case (Cons x l)
  then have x: "x \<noteq> CR" and l: "CR \<notin> set l" by auto
  show ?case
  proof (cases l)
    case Nil
    with x show ?thesis by simp
  next
    case (Cons y l')
    have "header_block cur ((x # l) @ CR # LF # rest) = header_block (x # cur) (l @ CR # LF # rest)"
      using x Cons by simp
    also have "\<dots> = map_option (\<lambda>(ls, body). ((rev (x # cur) @ l) # ls, body)) (header_block [] rest)"
      using Cons.IH [OF l, of "x # cur"] by simp
    finally show ?thesis by simp
  qed
qed

lemma header_block_response:
  assumes "CR \<notin> set sl" and "CR \<notin> set h1" and "CR \<notin> set h2"
    and "sl \<noteq> []" and "h1 \<noteq> []" and "h2 \<noteq> []"
  shows "header_block [] (sl @ CR # LF # h1 @ CR # LF # h2 @ CR # LF # CR # LF # body)
           = Some ([sl, h1, h2], body)"
proof -
  have e: "header_block [] (CR # LF # body) = Some ([], body)" by simp
  have "header_block [] (h2 @ CR # LF # CR # LF # body) = Some ([h2], body)"
    using header_block_line [OF assms(3), of "[]" "CR # LF # body"] assms(6) e by simp
  then have "header_block [] (h1 @ CR # LF # h2 @ CR # LF # CR # LF # body) = Some ([h1, h2], body)"
    using header_block_line [OF assms(2), of "[]" "h2 @ CR # LF # CR # LF # body"] assms(5) by simp
  then show ?thesis
    using header_block_line [OF assms(1), of "[]" "h1 @ CR # LF # h2 @ CR # LF # CR # LF # body"]
      assms(4) by simp
qed

lemma sendError_headers:
  assumes "CR \<notin> set message"
  shows "response_header_names (written (sendError code message))
           = Some [''Content-Type'', ''Content-Length'']"
proof -
  let ?sl = "''HTTP/1.1 '' @ fmt_d code @ '' '' @ message"
  let ?h1 = "''Content-Type: text/plain''"
  let ?h2 = "''Content-Length: '' @ fmt_d (int (length message))"
  have w: "written (sendError code message)
             = ?sl @ CR # LF # ?h1 @ CR # LF # ?h2 @ CR # LF # CR # LF # message"
    by (simp add: sendError_def)
  have "CR \<notin> set ?sl" using assms fmt_d_no_CR by simp
  moreover have "CR \<notin> set ?h1" by simp
  moreover have "CR \<notin> set ?h2" using fmt_d_no_CR by simp
  ultimately have "header_block [] (written (sendError code message)) = Some ([?sl, ?h1, ?h2], message)"
    unfolding w by (intro header_block_response) simp_all
  then show ?thesis
    by (simp add: response_header_names_def header_name_def)
qed

lemma file_response_headers:
  assumes "CR \<notin> set contentType" 
  shows "response_header_names (file_header contentType sz @ body)
           = Some [''Content-Type'', ''Content-Length'']"
proof -
  let ?sl = "''HTTP/1.1 200 OK''"
  let ?h1 = "''Content-Type: '' @ contentType"
  let ?h2 = "''Content-Length: '' @ fmt_d (int sz)"
  have w: "file_header contentType sz @ body
             = ?sl @ CR # LF # ?h1 @ CR # LF # ?h2 @ CR # LF # CR # LF # body"
    by (simp add: file_header_def)
  have "CR \<notin> set ?sl" by simp
  moreover have "CR \<notin> set ?h1" using assms by simp
  moreover have "CR \<notin> set ?h2" using fmt_d_no_CR by simp
  ultimately have "header_block [] (file_header contentType sz @ body) = Some ([?sl, ?h1, ?h2], body)"
    unfolding w by (intro header_block_response) simp_all
  then show ?thesis
    by (simp add: response_header_names_def header_name_def)
qed

lemma listing_response_headers:
  "response_header_names
     (''HTTP/1.1 200 OK'' @ CRLF @ ''Content-Type: text/html'' @ CRLF
      @ ''Content-Length: '' @ fmt_d n @ CRLF @ CRLF @ document)
     = Some [''Content-Type'', ''Content-Length'']"
proof -
  let ?sl = "''HTTP/1.1 200 OK''"
  let ?h1 = "''Content-Type: text/html''"
  let ?h2 = "''Content-Length: '' @ fmt_d n"
  have w: "''HTTP/1.1 200 OK'' @ CRLF @ ''Content-Type: text/html'' @ CRLF
      @ ''Content-Length: '' @ fmt_d n @ CRLF @ CRLF @ document
             = ?sl @ CR # LF # ?h1 @ CR # LF # ?h2 @ CR # LF # CR # LF # document"
    by simp
  have "CR \<notin> set ?sl" by simp
  moreover have "CR \<notin> set ?h1" by simp
  moreover have "CR \<notin> set ?h2" using fmt_d_no_CR by simp
  ultimately have "header_block [] (?sl @ CR # LF # ?h1 @ CR # LF # ?h2 @ CR # LF # CR # LF # document)
      = Some ([?sl, ?h1, ?h2], document)"
    by (intro header_block_response) simp_all
  then show ?thesis
    unfolding w by (simp add: response_header_names_def header_name_def)
qed

lemma sendFile_headers:
  assumes "\<forall>ext. CR \<notin> set (TypeByExtension e ext)"
  shows "response_header_names (written (sendFile e path))
           = Some [''Content-Type'', ''Content-Length'']"
proof (cases "os_Open e path")
  case None
  then show ?thesis by (simp add: sendFile_def sendError_headers)
next
  case (Some f)
  show ?thesis
  proof (cases "file_Stat f")
    case None
    with Some show ?thesis
      by (simp add: sendFile_def Let_def written_append sendError_headers)
  next
    case (Some sz)
    let ?ct = "if TypeByExtension e (Ext path) = [] then ''application/octet-stream''
               else TypeByExtension e (Ext path)"
    have "CR \<notin> set ?ct" using assms by simp
    then have "response_header_names (file_header ?ct sz @ file_bytes f)
                 = Some [''Content-Type'', ''Content-Length'']"
      by (rule file_response_headers)
    with Some \<open>os_Open e path = Some f\<close> show ?thesis
      by (simp add: sendFile_def Let_def)
  qed
qed

lemma generateDirectoryListing_headers:
  "response_header_names (written (generateDirectoryListing e path fullPath))
     = Some [''Content-Type'', ''Content-Length'']"
proof (cases "os_ReadDir e fullPath")
  case None
  then show ?thesis by (simp add: generateDirectoryListing_def sendError_headers)
next
  case (Some files)
  have "written (generateDirectoryListing e path fullPath) =
          ''HTTP/1.1 200 OK'' @ CRLF @ ''Content-Type: text/html'' @ CRLF
          @ ''Content-Length: '' @ fmt_d (int (length (listing_document path files)))
          @ CRLF @ CRLF @ listing_document path files"
    using Some by (simp add: generateDirectoryListing_def Let_def)
  then show ?thesis by (simp only: listing_response_headers)
qed

lemma serveResource_headers:
  assumes "\<forall>ext. CR \<notin> set (TypeByExtension e ext)"
  shows "response_header_names (written (serveResource e path))
           = Some [''Content-Type'', ''Content-Length'']"
proof (cases "os_Stat e (Join (dir e) path)")
  case NotExist
  then show ?thesis by (simp add: serveResource_def Let_def sendError_headers)
next
  case StatError
  then show ?thesis by (simp add: serveResource_def Let_def sendError_headers)
next
  case (FileInfo isDir)
  then show ?thesis
    using sendFile_headers [OF assms] generateDirectoryListing_headers
    by (simp add: serveResource_def Let_def)
qed

text \<open>
  Claim C7.  Whatever the input and the filesystem, what the handler writes to the
  connection reads back as a status line followed by exactly two header lines, named
  \<^verbatim>\<open>Content-Type\<close> and \<^verbatim>\<open>Content-Length\<close>, provided no MIME type of the table holds a
  carriage return.
\<close>

theorem response_headers_exactly_two:
  assumes "\<forall>ext. CR \<notin> set (TypeByExtension e ext)"
  shows "response_header_names (written (handleConnection e inp))
           = Some [''Content-Type'', ''Content-Length'']"
proof (cases "parseRequest inp")
  case (Inl err)
  then show ?thesis
    by (simp add: handleConnection_def written_append sendError_headers)
next
  case (Inr req)
  obtain m p v where req: "req = (m, p, v)"
    by (cases req) auto
  show ?thesis
  proof (cases "validateRequest m v")
    case None
    with Inr req show ?thesis
      by (simp add: handleConnection_def written_append serveResource_headers [OF assms])
  next
    case (Some err)
    with Inr req validateRequest_message [OF Some] show ?thesis
      by (simp add: handleConnection_def written_append sendError_headers)
  qed
qed

text \<open>
  The example environment and the request for \<^verbatim>\<open>index.html\<close>.
\<close>

theorem response_headers_exactly_two_witness:
  "(\<forall>ext. CR \<notin> set (TypeByExtension demo_env ext)) \<and>
   response_header_names (written (handleConnection demo_env (''GET /index.html HTTP/1.1'' @ CRLF)))
     = Some [''Content-Type'', ''Content-Length''] \<and>
   written (handleConnection demo_env (''GET /index.html HTTP/1.1'' @ CRLF)) =
     ''HTTP/1.1 200 OK'' @ CRLF @ ''Content-Type: text/html; charset=utf-8'' @ CRLF
     @ ''Content-Length: 11'' @ CRLF @ CRLF @ ''hello world''"
proof -
  have h: "\<forall>ext. CR \<notin> set (TypeByExtension demo_env ext)"
    by (simp add: demo_env_def split: option.splits)
  have w: "written (handleConnection demo_env (''GET /index.html HTTP/1.1'' @ CRLF)) =
     ''HTTP/1.1 200 OK'' @ CRLF @ ''Content-Type: text/html; charset=utf-8'' @ CRLF
     @ ''Content-Length: 11'' @ CRLF @ CRLF @ ''hello world''"
    by code_simp
  from response_headers_exactly_two [OF h, of "''GET /index.html HTTP/1.1'' @ CRLF"]
  show ?thesis using h w by simp
qed

subsection \<open>The path join\<close>

text \<open>
  Claim C8.  The resolver queries the filesystem at \<^verbatim>\<open>filepath.Join(dir, path)\<close> as it
  is, for every root and path.  For the root \<^verbatim>\<open>/srv/www\<close> the request path
  \<^verbatim>\<open>/%2e%2e/%2e%2e/etc/passwd\<close> decodes to \<^verbatim>\<open>/../../etc/passwd\<close>, the joined path is
  \<^verbatim>\<open>/etc/passwd\<close>, which is outside the root, and the handler serves that file.
\<close>

theorem serveResource_path_traversal:
  "(\<forall>e path. \<exists>rest. serveResource e path = FsStat (Join (dir e) path) # rest) \<and>
   parseRequest (''GET /%2e%2e/%2e%2e/etc/passwd HTTP/1.1'' @ CRLF)
     = Inr (''GET'', ''/../../etc/passwd'', ''HTTP/1.1'' @ CRLF) \<and>
   dir demo_env = ''/srv/www'' \<and>
   Join ''/srv/www'' ''/../../etc/passwd'' = ''/etc/passwd'' \<and>
   \<not> inside_root ''/srv/www'' ''/etc/passwd'' \<and>
   handleConnection demo_env (''GET /%2e%2e/%2e%2e/etc/passwd HTTP/1.1'' @ CRLF) =
     [FsStat ''/etc/passwd'', FsOpen ''/etc/passwd'', FileStat ''/etc/passwd'',
      ConnWrite (''HTTP/1.1 200 OK'' @ CRLF @ ''Content-Type: application/octet-stream'' @ CRLF
                 @ ''Content-Length: 10'' @ CRLF @ CRLF),
      ConnWrite ''root:x:0:0'', FileClose ''/etc/passwd'', ConnClose]"
proof -
  have a: "\<forall>e path. \<exists>rest. serveResource e path = FsStat (Join (dir e) path) # rest"
    by (simp add: serveResource_def Let_def)
  have b: "parseRequest (''GET /%2e%2e/%2e%2e/etc/passwd HTTP/1.1'' @ CRLF)
     = Inr (''GET'', ''/../../etc/passwd'', ''HTTP/1.1'' @ CRLF)"
    by (simp add: eval_parse)
  have c: "dir demo_env = ''/srv/www''" by (simp add: demo_env_def)
  have d: "Join ''/srv/www'' ''/../../etc/passwd'' = ''/etc/passwd''" by code_simp
  have e: "\<not> inside_root ''/srv/www'' ''/etc/passwd''" by (simp add: inside_root_def)
  have v: "validateRequest ''GET'' (''HTTP/1.1'' @ CRLF) = None"
    by (simp add: validateRequest_def HasPrefix_def)
  have s: "serveResource demo_env ''/../../etc/passwd'' =
     [FsStat ''/etc/passwd'', FsOpen ''/etc/passwd'', FileStat ''/etc/passwd'',
      ConnWrite (''HTTP/1.1 200 OK'' @ CRLF @ ''Content-Type: application/octet-stream'' @ CRLF
                 @ ''Content-Length: 10'' @ CRLF @ CRLF),
      ConnWrite ''root:x:0:0'', FileClose ''/etc/passwd'']" by code_simp
  have f: "handleConnection demo_env (''GET /%2e%2e/%2e%2e/etc/passwd HTTP/1.1'' @ CRLF) =
     [FsStat ''/etc/passwd'', FsOpen ''/etc/passwd'', FileStat ''/etc/passwd'',
      ConnWrite (''HTTP/1.1 200 OK'' @ CRLF @ ''Content-Type: application/octet-stream'' @ CRLF
                 @ ''Content-Length: 10'' @ CRLF @ CRLF),
      ConnWrite ''root:x:0:0'', FileClose ''/etc/passwd'', ConnClose]"
    using handleConnection_valid [OF b v, of demo_env] s by simp
  show ?thesis by (intro conjI a b c d e f)
qed

subsection \<open>The worker pool\<close>






end
